theory Spec2Isabelle
  imports Main "HOL-Library.Word"
begin

unbundle bit_operations_syntax

section \<open>Module constants\<close>

text \<open>
  The driver \<open>adafruit_sgp30.py\<close> works on Python integers, which do not overflow:
  they are \<open>int\<close> here, with \<open>&\<close>, \<open>^\<close>, \<open>|\<close>, \<open><<\<close> and \<open>>>\<close> as
  \<open>AND\<close>, \<open>XOR\<close>, \<open>OR\<close>, \<open>push_bit\<close> and \<open>drop_bit\<close>.
\<close>

definition SGP30_FEATURESET :: int where
  "SGP30_FEATURESET = 0x0020"

definition SGP30_CRC8_POLYNOMIAL :: int where
  "SGP30_CRC8_POLYNOMIAL = 0x31"

definition SGP30_CRC8_INIT :: int where
  "SGP30_CRC8_INIT = 0xFF"

definition SGP30_WORD_LEN :: nat where
  "SGP30_WORD_LEN = 2"

section \<open>The checksum\<close>

text \<open>
  The body of the inner loop of \<open>sensirion_common_generate_crc\<close>: one shift of the
  accumulator, which is not masked.
\<close>

definition crc_shift :: "int \<Rightarrow> int" where
  "crc_shift crc =
     (if crc AND 0x80 \<noteq> 0 then push_bit 1 crc XOR SGP30_CRC8_POLYNOMIAL
      else push_bit 1 crc)"

text \<open>The body of the outer loop: \<open>crc ^= byte\<close>, then \<open>for i in range(8)\<close>.\<close>

definition crc_byte :: "int \<Rightarrow> int \<Rightarrow> int" where
  "crc_byte byte crc = (crc_shift ^^ 8) (crc XOR byte)"

definition sensirion_common_generate_crc :: "int list \<Rightarrow> int" where
  "sensirion_common_generate_crc data = fold crc_byte data SGP30_CRC8_INIT AND 0xFF"

text \<open>
  The checksum as the specification words it: an accumulator that starts at 0xFF, takes
  each byte by exclusive or, and is then shifted eight times, every shift masked to 8 bits.
\<close>

definition spec_crc_shift :: "int \<Rightarrow> int" where
  "spec_crc_shift acc =
     (if acc AND 0x80 \<noteq> 0 then (push_bit 1 acc XOR 0x31) AND 0xFF
      else push_bit 1 acc AND 0xFF)"

definition spec_crc_byte :: "int \<Rightarrow> int \<Rightarrow> int" where
  "spec_crc_byte byte acc = (spec_crc_shift ^^ 8) (acc XOR byte)"

definition spec_checksum :: "int list \<Rightarrow> int" where
  "spec_checksum data = fold spec_crc_byte data 0xFF"

section \<open>The bus device\<close>

text \<open>
  \<open>I2CDevice\<close> belongs to another library. The driver writes a \<open>bytes\<close> object to it,
  reads into a \<open>bytearray\<close> of a given length, and sleeps in between. The device is
  modelled by the trace of what the driver did and by two functions of that trace: whether
  a write is acknowledged, and what a read delivers. A write that is not acknowledged and a
  read that does not deliver the requested number of bytes raise \<open>OSError\<close>. Delays are
  recorded in milliseconds (the source passes seconds: 0.01 and 0.05). Taking and
  releasing the bus lock in \<open>with self._device\<close> leaves no mark in the trace.
\<close>

type_synonym byte = "8 word"

datatype event = Write "byte list" | Sleep nat | Read nat

datatype error =
    CRC_Error
  | Not_Detected
  | Invalid_Baseline
  | Value_Error
  | Type_Error
  | Index_Error
  | OS_Error

record i2c_device =
  history :: "event list"
  acks :: "event list \<Rightarrow> bool"
  answers :: "event list \<Rightarrow> byte list"

text \<open>\<open>bytes(command)\<close> raises \<open>ValueError\<close> unless every element is in range(0, 256).\<close>

definition bytes :: "int list \<Rightarrow> error + byte list" where
  "bytes command =
     (if list_all (\<lambda>x. 0 \<le> x \<and> x < 256) command then Inr (map word_of_int command)
      else Inl Value_Error)"

definition device_write :: "i2c_device \<Rightarrow> byte list \<Rightarrow> (error + unit) \<times> i2c_device" where
  "device_write dev buf =
     (let h = history dev @ [Write buf]
      in (if acks dev h then Inr () else Inl OS_Error, dev\<lparr>history := h\<rparr>))"

definition time_sleep :: "i2c_device \<Rightarrow> nat \<Rightarrow> i2c_device" where
  "time_sleep dev ms = dev\<lparr>history := history dev @ [Sleep ms]\<rparr>"

definition device_read_into :: "i2c_device \<Rightarrow> nat \<Rightarrow> (error + byte list) \<times> i2c_device" where
  "device_read_into dev n =
     (let h = history dev @ [Read n]; buf = answers dev h
      in (if length buf = n then Inr buf else Inl OS_Error, dev\<lparr>history := h\<rparr>))"

section \<open>The driver\<close>

record Adafruit_SGP30 =
  device :: i2c_device
  serial :: "int list option"

text \<open>
  The loop \<open>for i in range(reply_size)\<close> of \<open>sgp_i2c_read_words_from_cmd\<close>, over the
  indices still to visit and the words collected so far.
\<close>

fun read_words :: "byte list \<Rightarrow> nat list \<Rightarrow> int list \<Rightarrow> error + int list" where
  "read_words crc_result [] result = Inr result"
| "read_words crc_result (i # rest) result =
     (let word = [uint (crc_result ! (3 * i)), uint (crc_result ! (3 * i + 1))];
          crc = uint (crc_result ! (3 * i + 2))
      in if sensirion_common_generate_crc word \<noteq> crc then Inl CRC_Error
         else read_words crc_result rest (result @ [push_bit 8 (word ! 0) OR word ! 1]))"

definition sgp_i2c_read_words_from_cmd ::
  "Adafruit_SGP30 \<Rightarrow> int list \<Rightarrow> nat \<Rightarrow> int \<Rightarrow> (error + int list option) \<times> Adafruit_SGP30" where
  "sgp_i2c_read_words_from_cmd self command delay reply_size =
     (case bytes command of
        Inl e \<Rightarrow> (Inl e, self)
      | Inr buf \<Rightarrow>
          (case device_write (device self) buf of
             (Inl e, dev1) \<Rightarrow> (Inl e, self\<lparr>device := dev1\<rparr>)
           | (Inr _, dev1) \<Rightarrow>
               (let dev2 = time_sleep dev1 delay
                in if reply_size = 0 then (Inr None, self\<lparr>device := dev2\<rparr>)
                   else if reply_size < 0 then (Inl Value_Error, self\<lparr>device := dev2\<rparr>)
                   else
                     (case device_read_into dev2 (nat reply_size * (SGP30_WORD_LEN + 1)) of
                        (Inl e, dev3) \<Rightarrow> (Inl e, self\<lparr>device := dev3\<rparr>)
                      | (Inr crc_result, dev3) \<Rightarrow>
                          (case read_words crc_result [0..<nat reply_size] [] of
                             Inl e \<Rightarrow> (Inl e, self\<lparr>device := dev3\<rparr>)
                           | Inr result \<Rightarrow> (Inr (Some result), self\<lparr>device := dev3\<rparr>))))))"

text \<open>A profile is the tuple \<open>name, command, signals, delay\<close>.\<close>

type_synonym profile = "string \<times> int list \<times> int \<times> nat"

fun sgp_run_profile ::
  "Adafruit_SGP30 \<Rightarrow> profile \<Rightarrow> (error + int list option) \<times> Adafruit_SGP30" where
  "sgp_run_profile self (name, command, signals, delay) =
     sgp_i2c_read_words_from_cmd self command delay signals"

text \<open>\<open>sgp_iaq_init\<close> has no return statement: it returns nothing whatever the profile gave.\<close>

definition sgp_iaq_init :: "Adafruit_SGP30 \<Rightarrow> (error + unit) \<times> Adafruit_SGP30" where
  "sgp_iaq_init self =
     (case sgp_run_profile self (''iaq_init'', [0x20, 0x03], 0, 10) of
        (Inl e, self') \<Rightarrow> (Inl e, self')
      | (Inr _, self') \<Rightarrow> (Inr (), self'))"

definition sgp_iaq_measure :: "Adafruit_SGP30 \<Rightarrow> (error + int list option) \<times> Adafruit_SGP30" where
  "sgp_iaq_measure self = sgp_run_profile self (''iaq_measure'', [0x20, 0x08], 2, 50)"

definition sgp_get_iaq_baseline ::
  "Adafruit_SGP30 \<Rightarrow> (error + int list option) \<times> Adafruit_SGP30" where
  "sgp_get_iaq_baseline self =
     sgp_run_profile self (''iaq_get_baseline'', [0x20, 0x15], 2, 10)"

text \<open>
  The body of the loop \<open>for v in [tvoc, co2eq]\<close> of \<open>sgp_set_iaq_baseline\<close>: the two
  bytes of \<open>v\<close> and their checksum.
\<close>

definition baseline_arr :: "int \<Rightarrow> int list" where
  "baseline_arr v =
     (let arr = [drop_bit 8 v, v AND 0xFF]
      in arr @ [sensirion_common_generate_crc arr])"

definition baseline_buffer :: "int \<Rightarrow> int \<Rightarrow> int list" where
  "baseline_buffer co2eq tvoc = fold (\<lambda>v buffer. buffer @ baseline_arr v) [tvoc, co2eq] []"

definition sgp_set_iaq_baseline ::
  "Adafruit_SGP30 \<Rightarrow> int \<Rightarrow> int \<Rightarrow> (error + unit) \<times> Adafruit_SGP30" where
  "sgp_set_iaq_baseline self co2eq tvoc =
     (if co2eq = 0 \<and> tvoc = 0 then (Inl Invalid_Baseline, self)
      else
        (case sgp_run_profile self
                (''iaq_set_baseline'', [0x20, 0x1e] @ baseline_buffer co2eq tvoc, 0, 10) of
           (Inl e, self') \<Rightarrow> (Inl e, self')
         | (Inr _, self') \<Rightarrow> (Inr (), self')))"

text \<open>
  \<open>__init__\<close>, from the device handle \<open>I2CDevice(i2c, address)\<close>. An exception leaves no
  object behind: the result is the error alone.
\<close>

definition init :: "i2c_device \<Rightarrow> error + Adafruit_SGP30" where
  "init dev =
     (let self = \<lparr>device = dev, serial = None\<rparr>
      in case sgp_i2c_read_words_from_cmd self [0x36, 0x82] 10 3 of
           (Inl e, _) \<Rightarrow> Inl e
         | (Inr words, self1) \<Rightarrow>
             (let self2 = self1\<lparr>serial := words\<rparr>
              in case sgp_i2c_read_words_from_cmd self2 [0x20, 0x2f] 10 1 of
                   (Inl e, _) \<Rightarrow> Inl e
                 | (Inr None, _) \<Rightarrow> Inl Type_Error
                 | (Inr (Some []), _) \<Rightarrow> Inl Index_Error
                 | (Inr (Some (w # _)), self3) \<Rightarrow>
                     if w \<noteq> SGP30_FEATURESET then Inl Not_Detected
                     else (case sgp_iaq_init self3 of
                             (Inl e, _) \<Rightarrow> Inl e
                           | (Inr _, self4) \<Rightarrow> Inr self4)))"

section \<open>Notions for stating what the parser does\<close>

text \<open>
  Group \<open>i\<close> of a reply buffer is the three bytes at \<open>3 * i\<close>: two data bytes and the
  checksum byte. \<open>group_ok\<close> is the negation of the test before the parser's \<open>raise\<close>,
  \<open>group_word\<close> the word that the parser appends.
\<close>

definition group_ok :: "byte list \<Rightarrow> nat \<Rightarrow> bool" where
  "group_ok buf i =
     (sensirion_common_generate_crc [uint (buf ! (3 * i)), uint (buf ! (3 * i + 1))]
        = uint (buf ! (3 * i + 2)))"

definition group_word :: "byte list \<Rightarrow> nat \<Rightarrow> int" where
  "group_word buf i = push_bit 8 (uint (buf ! (3 * i))) OR uint (buf ! (3 * i + 1))"

text \<open>The device after the driver has done the events \<open>es\<close> on it.\<close>

definition after :: "Adafruit_SGP30 \<Rightarrow> event list \<Rightarrow> Adafruit_SGP30" where
  "after self es = self\<lparr>device := (device self)\<lparr>history := history (device self) @ es\<rparr>\<rparr>"

section \<open>Bit masks on unbounded integers\<close>

lemma and_255_take_bit: "(x::int) AND 0xFF = take_bit 8 x"
proof -
  have "(0xFF::int) = mask 8"
    by (simp add: mask_eq_exp_minus_1)
  then show ?thesis
    by (simp add: take_bit_eq_mask)
qed

lemma and_128_bit: "((x::int) AND 0x80 \<noteq> 0) = bit x 7"
proof -
  have "(0x80::int) = 2 ^ 7"
    by simp
  then show ?thesis
    by (simp only: and_exp_eq_0_iff_not_bit) simp
qed

lemma low8_bit7: "take_bit 8 (a::int) = take_bit 8 b \<Longrightarrow> bit a 7 = bit b 7"
proof -
  assume same: "take_bit 8 a = take_bit 8 b"
  have "bit (take_bit 8 a) 7 = bit a 7" and "bit (take_bit 8 b) 7 = bit b 7"
    by (simp_all add: bit_take_bit_iff)
  with same show ?thesis
    by simp
qed

lemma low8_double:
  "take_bit 8 (a::int) = take_bit 8 b \<Longrightarrow> take_bit 8 (a * 2) = take_bit 8 (b * 2)"
proof -
  assume same: "take_bit 8 a = take_bit 8 b"
  have "take_bit 8 (take_bit 8 c * 2) = take_bit 8 (c * 2)" for c :: int
    by (simp add: take_bit_eq_mod mod_mult_left_eq)
  with same show ?thesis
    by metis
qed

lemma low8_xor:
  "take_bit 8 (a::int) = take_bit 8 b \<Longrightarrow> take_bit 8 (a XOR c) = take_bit 8 (b XOR c)"
  by (simp add: take_bit_xor [of 8 a c] take_bit_xor [of 8 b c] del: take_bit_xor)

section \<open>The unmasked accumulator against the masked one\<close>

text \<open>
  The accumulator of the code grows beyond 8 bits, but its low 8 bits are at every step the
  accumulator of the specification.
\<close>

lemma crc_shift_low8:
  assumes "take_bit 8 a = take_bit 8 b"
  shows "spec_crc_shift b = take_bit 8 (crc_shift a)"
  using low8_bit7 [OF assms] low8_double [OF assms]
  by (simp add: spec_crc_shift_def crc_shift_def and_255_take_bit and_128_bit
      SGP30_CRC8_POLYNOMIAL_def)

lemma crc_shifts_low8:
  "take_bit 8 a = take_bit 8 b \<Longrightarrow>
   (spec_crc_shift ^^ Suc n) b = take_bit 8 ((crc_shift ^^ Suc n) a)"
proof (induction n)
  case 0
  from crc_shift_low8 [OF this] show ?case
    by simp
next
  case (Suc n)
  have "take_bit 8 ((crc_shift ^^ Suc n) a) = take_bit 8 ((spec_crc_shift ^^ Suc n) b)"
    using Suc by simp
  from crc_shift_low8 [OF this] show ?case
    by simp
qed

lemma crc_byte_low8:
  assumes "take_bit 8 a = take_bit 8 b"
  shows "spec_crc_byte x b = take_bit 8 (crc_byte x a)"
proof -
  have "take_bit 8 (a XOR x) = take_bit 8 (b XOR x)"
    using assms by (rule low8_xor)
  from crc_shifts_low8 [OF this, of 7] show ?thesis
    by (simp add: spec_crc_byte_def crc_byte_def eval_nat_numeral)
qed

lemma fold_crc_byte_low8:
  "b = take_bit 8 a \<Longrightarrow> fold spec_crc_byte data b = take_bit 8 (fold crc_byte data a)"
proof (induction data arbitrary: a b)
  case Nil
  then show ?case
    by simp
next
  case (Cons x xs)
  have "spec_crc_byte x b = take_bit 8 (crc_byte x a)"
    by (rule crc_byte_low8) (simp add: Cons.prems)
  from Cons.IH [OF this] show ?case
    by simp
qed

lemma generate_crc_spec: "sensirion_common_generate_crc data = spec_checksum data"
proof -
  have "(0xFF::int) = take_bit 8 0xFF"
    by simp
  from fold_crc_byte_low8 [OF this] show ?thesis
    by (simp add: sensirion_common_generate_crc_def spec_checksum_def and_255_take_bit
        SGP30_CRC8_INIT_def)
qed

lemma generate_crc_bounds:
  "0 \<le> sensirion_common_generate_crc data" "sensirion_common_generate_crc data < 256"
  using take_bit_int_less_exp [of 8 "fold crc_byte data SGP30_CRC8_INIT"]
  by (simp_all add: sensirion_common_generate_crc_def and_255_take_bit)

text \<open>
  C1. For any 2-byte word, the checksum that the code computes, masking once at the end,
  is the checksum of the specification's algorithm: accumulator 0xFF, each byte taken by
  exclusive or, then eight shifts to the left, each with polynomial 0x31 when the high bit
  was set, and each masked to 8 bits.
\<close>

theorem checksum_is_spec_crc8:
  "sensirion_common_generate_crc [hi, lo] = spec_checksum [hi, lo]"
  by (rule generate_crc_spec)

text \<open>
  C10. For every list of bytes, of any length, the checksum is in the range 0..255.
\<close>

theorem checksum_in_byte_range:
  "0 \<le> sensirion_common_generate_crc data \<and> sensirion_common_generate_crc data < 256"
  by (simp add: generate_crc_bounds)

section \<open>Checksums of the words used in the examples\<close>

lemma crc_BEEF: "sensirion_common_generate_crc [0xBE, 0xEF] = 0x92"
  by code_simp

lemma crc_0123: "sensirion_common_generate_crc [0x01, 0x23] = 0xA0"
  by code_simp

lemma crc_0010: "sensirion_common_generate_crc [0x00, 0x10] = 0xC2"
  by code_simp

lemma crc_0042: "sensirion_common_generate_crc [0x00, 0x42] = 0xDE"
  by code_simp

lemma crc_8973: "sensirion_common_generate_crc [0x89, 0x73] = 0xCA"
  by code_simp

lemma crc_0000: "sensirion_common_generate_crc [0x00, 0x00] = 0x81"
  by code_simp

lemma crc_0020: "sensirion_common_generate_crc [0x00, 0x20] = 0x07"
  by code_simp

lemma crc_0001: "sensirion_common_generate_crc [0x00, 0x01] = 0xB0"
  by code_simp

lemma upt_2: "[0..<2] = [0, 1]"
  by (simp add: upt_rec)

lemma upt_3: "[0..<3] = [0, 1, 2]"
  by (simp add: upt_rec)

section \<open>What one transaction does\<close>

lemma read_words_outcome:
  "read_words buf idxs result =
     (if list_all (group_ok buf) idxs then Inr (result @ map (group_word buf) idxs)
      else Inl CRC_Error)"
  by (induction idxs arbitrary: result) (simp_all add: group_ok_def group_word_def Let_def)

lemma bytes_in_range:
  "list_all (\<lambda>x. 0 \<le> x \<and> x < 256) command \<Longrightarrow> bytes command = Inr (map word_of_int command)"
  by (simp add: bytes_def)

text \<open>
  With a command of bytes and an acknowledged write, the transaction is decided by the
  reply size, the length of what the device delivers and the checksums of its groups.
\<close>

lemma transaction_outcome:
  assumes "list_all (\<lambda>x. 0 \<le> x \<and> x < 256) command"
    and "acks (device self) (history (device self) @ [Write (map word_of_int command)])"
  shows "sgp_i2c_read_words_from_cmd self command delay reply_size =
     (let cmd = map word_of_int command in
      if reply_size = 0 then (Inr None, after self [Write cmd, Sleep delay])
      else if reply_size < 0 then (Inl Value_Error, after self [Write cmd, Sleep delay])
      else
        (let n = nat reply_size;
             es = [Write cmd, Sleep delay, Read (n * 3)];
             buf = answers (device self) (history (device self) @ es)
         in if length buf \<noteq> n * 3 then (Inl OS_Error, after self es)
            else if list_all (group_ok buf) [0..<n]
              then (Inr (Some (map (group_word buf) [0..<n])), after self es)
              else (Inl CRC_Error, after self es)))"
  using assms
  by (simp add: sgp_i2c_read_words_from_cmd_def bytes_in_range device_write_def time_sleep_def
      device_read_into_def read_words_outcome after_def Let_def SGP30_WORD_LEN_def)

lemma transaction_nack:
  assumes "list_all (\<lambda>x. 0 \<le> x \<and> x < 256) command"
    and "\<not> acks (device self) (history (device self) @ [Write (map word_of_int command)])"
  shows "sgp_i2c_read_words_from_cmd self command delay reply_size =
     (Inl OS_Error, after self [Write (map word_of_int command)])"
  using assms
  by (simp add: sgp_i2c_read_words_from_cmd_def bytes_in_range device_write_def after_def
      Let_def)

lemma transaction_bad_command:
  "\<not> list_all (\<lambda>x. 0 \<le> x \<and> x < 256) command \<Longrightarrow>
   sgp_i2c_read_words_from_cmd self command delay reply_size = (Inl Value_Error, self)"
  by (simp add: sgp_i2c_read_words_from_cmd_def bytes_def)

lemma transaction_errors:
  "fst (sgp_i2c_read_words_from_cmd self command delay reply_size) = Inl e \<Longrightarrow>
   e = Value_Error \<or> e = OS_Error \<or> e = CRC_Error"
  by (auto simp add: sgp_i2c_read_words_from_cmd_def bytes_def device_write_def
      device_read_into_def read_words_outcome Let_def split: if_splits)

section \<open>Words and their bytes\<close>

lemma join_split: "push_bit 8 (drop_bit 8 (w::int)) OR (w AND 0xFF) = w"
  by (rule bit_eqI) (auto simp add: bit_simps and_255_take_bit)

lemma byte_parts:
  assumes "0 \<le> (w::int)" "w < 65536"
  shows "0 \<le> drop_bit 8 w" "drop_bit 8 w < 256" "0 \<le> w AND 0xFF" "w AND 0xFF < 256"
  using assms by (simp_all add: drop_bit_eq_div and_255_take_bit take_bit_eq_mod)

lemma uint_byte: "0 \<le> x \<Longrightarrow> x < 256 \<Longrightarrow> uint (word_of_int x :: byte) = x"
  by (simp add: uint_word_of_int take_bit_eq_mod)

lemma group_word_bounds: "0 \<le> group_word buf i" "group_word buf i < 65536"
proof -
  have "push_bit 8 (uint (buf ! (3 * i))) < (2::int) ^ 16"
    using uint_lt2p [of "buf ! (3 * i)"] by (simp add: push_bit_eq_mult)
  moreover have "uint (buf ! (3 * i + 1)) < (2::int) ^ 16"
    using uint_lt2p [of "buf ! (3 * i + 1)"] by simp
  ultimately have
    "push_bit 8 (uint (buf ! (3 * i))) OR uint (buf ! (3 * i + 1)) < (2::int) ^ 16"
    by (intro OR_upper) (simp_all add: push_bit_eq_mult)
  then show "group_word buf i < 65536"
    by (simp add: group_word_def)
  show "0 \<le> group_word buf i"
    by (simp add: group_word_def)
qed

lemma flip_differs: "k < 8 \<Longrightarrow> (c::byte) XOR push_bit k 1 \<noteq> c"
proof
  assume k: "k < 8" and eq: "c XOR push_bit k 1 = c"
  have "bit (c XOR push_bit k 1) k = (\<not> bit c k)"
    using k by (simp add: bit_simps)
  with eq show False
    by simp
qed

text \<open>A group that carries the two bytes of a 16-bit word \<open>w\<close>.\<close>

lemma group_ok_encoded:
  assumes "0 \<le> w" "w < 65536"
    and "buf ! (3 * i) = word_of_int (drop_bit 8 w)"
    and "buf ! (3 * i + 1) = word_of_int (w AND 0xFF)"
  shows "group_ok buf i =
           (buf ! (3 * i + 2)
            = word_of_int (sensirion_common_generate_crc [drop_bit 8 w, w AND 0xFF]))"
    and "group_word buf i = w"
proof -
  let ?c = "sensirion_common_generate_crc [drop_bit 8 w, w AND 0xFF]"
  have hi: "uint (buf ! (3 * i)) = drop_bit 8 w"
    and lo: "uint (buf ! (3 * i + 1)) = w AND 0xFF"
    using assms byte_parts [OF assms(1,2)] by (simp_all add: uint_byte)
  have "uint (word_of_int ?c :: byte) = ?c"
    by (rule uint_byte) (rule generate_crc_bounds)+
  then have "(?c = uint (buf ! (3 * i + 2))) = (buf ! (3 * i + 2) = word_of_int ?c)"
    by (metis word_of_int_uint)
  then show "group_ok buf i = (buf ! (3 * i + 2) = word_of_int ?c)"
    unfolding group_ok_def hi lo .
  show "group_word buf i = w"
    unfolding group_word_def hi lo by (rule join_split)
qed

section \<open>The reply parser\<close>

text \<open>
  C2. For every 16-bit value \<open>w\<close> in 0..65535, when the device answers a one-word read
  with the group \<open>[w >> 8, w & 0xFF, crc(w >> 8, w & 0xFF)]\<close>, the transaction raises no
  checksum error and returns exactly \<open>w\<close>.
\<close>

theorem encode_then_parse_roundtrip:
  assumes "0 \<le> w" and "w < 65536"
    and "list_all (\<lambda>x. 0 \<le> x \<and> x < 256) command"
    and "acks (device self) (history (device self) @ [Write (map word_of_int command)])"
    and "answers (device self)
           (history (device self) @ [Write (map word_of_int command), Sleep delay, Read 3])
         = map word_of_int
             [drop_bit 8 w, w AND 0xFF,
              sensirion_common_generate_crc [drop_bit 8 w, w AND 0xFF]]"
  shows "fst (sgp_i2c_read_words_from_cmd self command delay 1) = Inr (Some [w])"
proof -
  let ?buf = "answers (device self)
           (history (device self) @ [Write (map word_of_int command), Sleep delay, Read 3])"
  have "group_ok ?buf 0" and "group_word ?buf 0 = w"
    using group_ok_encoded [OF assms(1,2), of ?buf 0] assms(5) by simp_all
  then show ?thesis
    using assms(5) by (simp add: transaction_outcome [OF assms(3,4)] Let_def)
qed

theorem encode_then_parse_roundtrip_witness:
  "fst (sgp_i2c_read_words_from_cmd
          \<lparr>device = \<lparr>history = [], acks = \<lambda>_. True, answers = \<lambda>_. [0xBE, 0xEF, 0x92]\<rparr>,
           serial = None\<rparr>
          [0x20, 0x15] 10 1)
   = Inr (Some [0xBEEF])"
  using encode_then_parse_roundtrip
    [where w = "0xBEEF" and command = "[0x20, 0x15]" and delay = 10
      and self = "\<lparr>device = \<lparr>history = [], acks = \<lambda>_. True,
                              answers = \<lambda>_. [0xBE, 0xEF, 0x92]\<rparr>,
                   serial = None\<rparr>"]
  by (simp add: crc_BEEF drop_bit_eq_div)

text \<open>
  C3. For every 16-bit word \<open>w\<close> and every bit position \<open>k\<close> of its checksum byte: when a
  reply of \<open>n\<close> words carries \<open>w\<close> in group \<open>i\<close> with bit \<open>k\<close> of the transmitted
  checksum byte flipped, the transaction fails with the checksum error.
\<close>

theorem flipped_checksum_bit_detected:
  assumes "0 \<le> w" and "w < 65536" and "k < 8" and "i < n"
    and "list_all (\<lambda>x. 0 \<le> x \<and> x < 256) command"
    and "acks (device self) (history (device self) @ [Write (map word_of_int command)])"
    and "answers (device self)
           (history (device self)
              @ [Write (map word_of_int command), Sleep delay, Read (n * 3)])
         = buf"
    and "length buf = n * 3"
    and "buf ! (3 * i) = word_of_int (drop_bit 8 w)"
    and "buf ! (3 * i + 1) = word_of_int (w AND 0xFF)"
    and "buf ! (3 * i + 2) =
           word_of_int (sensirion_common_generate_crc [drop_bit 8 w, w AND 0xFF])
             XOR push_bit k 1"
  shows "fst (sgp_i2c_read_words_from_cmd self command delay (int n)) = Inl CRC_Error"
proof -
  have "\<not> group_ok buf i"
    using group_ok_encoded(1) [OF assms(1,2,9,10)] assms(11) flip_differs [OF assms(3)]
    by simp
  moreover have "i \<in> set [0..<n]"
    using assms(4) by simp
  ultimately have "\<not> list_all (group_ok buf) [0..<n]"
    unfolding list_all_iff by blast
  then show ?thesis
    using assms(4,7,8) by (simp add: transaction_outcome [OF assms(5,6)] Let_def)
qed

theorem flipped_checksum_bit_detected_witness:
  "fst (sgp_i2c_read_words_from_cmd
          \<lparr>device = \<lparr>history = [], acks = \<lambda>_. True,
                     answers = \<lambda>_. [0xBE, 0xEF, 0x92, 0x01, 0x23, 0xA4]\<rparr>,
           serial = None\<rparr>
          [0x20, 0x15] 10 2)
   = Inl CRC_Error"
  using flipped_checksum_bit_detected
    [where w = "0x0123" and k = 2 and i = 1 and n = 2 and command = "[0x20, 0x15]"
      and delay = 10 and buf = "[0xBE, 0xEF, 0x92, 0x01, 0x23, 0xA4]"
      and self = "\<lparr>device = \<lparr>history = [], acks = \<lambda>_. True,
                              answers = \<lambda>_. [0xBE, 0xEF, 0x92, 0x01, 0x23, 0xA4]\<rparr>,
                   serial = None\<rparr>"]
  by (simp add: crc_0123 drop_bit_eq_div)

text \<open>
  C8. For every command of bytes and every delay, on a bus that acknowledges the write:
  with reply size zero the transaction writes, sleeps, reads nothing and returns nothing;
  with reply size \<open>n > 0\<close> it writes, sleeps and reads exactly \<open>n * 3\<close> bytes, and when the
  bytes arrive with matching checksums it returns exactly \<open>n\<close> words, each in 0..65535,
  word \<open>j\<close> from group \<open>j\<close>; otherwise it returns no data but an error.
\<close>

theorem reply_size_decides_read:
  fixes n :: nat
  assumes "list_all (\<lambda>x. 0 \<le> x \<and> x < 256) command"
    and "acks (device self) (history (device self) @ [Write (map word_of_int command)])"
    and "es = [Write (map word_of_int command), Sleep delay, Read (n * 3)]"
    and "buf = answers (device self) (history (device self) @ es)"
    and "tx = sgp_i2c_read_words_from_cmd self command delay (int n)"
  shows "sgp_i2c_read_words_from_cmd self command delay 0
           = (Inr None, after self [Write (map word_of_int command), Sleep delay])
       \<and> (0 < n \<longrightarrow>
            snd tx = after self es
          \<and> (length buf = n * 3 \<and> list_all (group_ok buf) [0..<n] \<longrightarrow>
                (\<exists>ws. fst tx = Inr (Some ws) \<and> length ws = n
                    \<and> list_all (\<lambda>w. 0 \<le> w \<and> w < 65536) ws
                    \<and> (\<forall>j<n. ws ! j = group_word buf j)))
          \<and> (\<not> (length buf = n * 3 \<and> list_all (group_ok buf) [0..<n]) \<longrightarrow>
                (\<exists>e. fst tx = Inl e)))"
proof -
  have words: "list_all (\<lambda>w. 0 \<le> w \<and> w < 65536) (map (group_word buf) [0..<n])"
    by (simp add: list_all_iff group_word_bounds)
  show ?thesis
    using words unfolding assms(3,4,5)
    by (simp add: transaction_outcome [OF assms(1,2)] Let_def)
qed

theorem reply_size_decides_read_witness:
  "sgp_i2c_read_words_from_cmd
     \<lparr>device = \<lparr>history = [], acks = \<lambda>_. True,
                answers = \<lambda>_. [0xBE, 0xEF, 0x92, 0x01, 0x23, 0xA0]\<rparr>,
      serial = None\<rparr> [0x20, 0x15] 10 0
   = (Inr None,
      \<lparr>device = \<lparr>history = [Write [0x20, 0x15], Sleep 10], acks = \<lambda>_. True,
                 answers = \<lambda>_. [0xBE, 0xEF, 0x92, 0x01, 0x23, 0xA0]\<rparr>,
       serial = None\<rparr>)
   \<and> snd (sgp_i2c_read_words_from_cmd
     \<lparr>device = \<lparr>history = [], acks = \<lambda>_. True,
                answers = \<lambda>_. [0xBE, 0xEF, 0x92, 0x01, 0x23, 0xA0]\<rparr>,
      serial = None\<rparr> [0x20, 0x15] 10 2)
   = \<lparr>device = \<lparr>history = [Write [0x20, 0x15], Sleep 10, Read 6], acks = \<lambda>_. True,
                 answers = \<lambda>_. [0xBE, 0xEF, 0x92, 0x01, 0x23, 0xA0]\<rparr>,
       serial = None\<rparr>
   \<and> (\<exists>ws. fst (sgp_i2c_read_words_from_cmd
     \<lparr>device = \<lparr>history = [], acks = \<lambda>_. True,
                answers = \<lambda>_. [0xBE, 0xEF, 0x92, 0x01, 0x23, 0xA0]\<rparr>,
      serial = None\<rparr> [0x20, 0x15] 10 2) = Inr (Some ws)
        \<and> length ws = 2 \<and> ws ! 0 = 0xBEEF \<and> ws ! 1 = 0x0123)"
proof -
  let ?buf = "[0xBE, 0xEF, 0x92, 0x01, 0x23, 0xA0] :: byte list"
  let ?self = "\<lparr>device = \<lparr>history = [], acks = \<lambda>_. True, answers = \<lambda>_. ?buf\<rparr>,
      serial = None\<rparr>"
  have ok: "list_all (group_ok ?buf) [0..<2]"
    by (simp add: upt_2 group_ok_def crc_BEEF crc_0123)
  have w0: "group_word ?buf 0 = 0xBEEF" and w1: "group_word ?buf 1 = 0x0123"
    by (simp_all add: group_word_def)
  from reply_size_decides_read [where n = 2 and command = "[0x20, 0x15]" and delay = 10
      and self = ?self, OF _ _ refl refl refl]
  have "sgp_i2c_read_words_from_cmd ?self [0x20, 0x15] 10 0
          = (Inr None, after ?self [Write [0x20, 0x15], Sleep 10])"
    and "snd (sgp_i2c_read_words_from_cmd ?self [0x20, 0x15] 10 2)
          = after ?self [Write [0x20, 0x15], Sleep 10, Read 6]"
    and "\<exists>ws. fst (sgp_i2c_read_words_from_cmd ?self [0x20, 0x15] 10 2) = Inr (Some ws)
           \<and> length ws = 2 \<and> (\<forall>j<2. ws ! j = group_word ?buf j)"
    using ok by auto
  then show ?thesis
    using w0 w1 by (auto simp add: after_def)
qed

section \<open>Measuring\<close>

text \<open>
  C7. \<open>measure()\<close> writes the bytes 0x20 0x08, sleeps 50 ms, reads 2 words (6 bytes) and
  returns them in reply order, CO2eq then TVOC: when the device answers with two groups
  \<open>[ah, al, crc(ah, al), bh, bl, crc(bh, bl)]\<close>, the result is the pair
  \<open>(ah << 8 | al, bh << 8 | bl)\<close>. The witness is the transport that answers
  \<open>[0x01, 0x23, crc, 0x00, 0x10, crc]\<close>, for which the result is (0x0123, 0x0010).
\<close>

theorem measure_returns_reply_pair:
  assumes "acks (device self) (history (device self) @ [Write [0x20, 0x08]])"
    and "answers (device self)
           (history (device self) @ [Write [0x20, 0x08], Sleep 50, Read 6])
         = [ah, al, word_of_int (sensirion_common_generate_crc [uint ah, uint al]),
            bh, bl, word_of_int (sensirion_common_generate_crc [uint bh, uint bl])]"
  shows "sgp_iaq_measure self
         = (Inr (Some [push_bit 8 (uint ah) OR uint al, push_bit 8 (uint bh) OR uint bl]),
            after self [Write [0x20, 0x08], Sleep 50, Read 6])"
proof -
  have cmd: "list_all (\<lambda>x. 0 \<le> x \<and> x < 256) [0x20, 0x08 :: int]"
    by simp
  have ack: "acks (device self) (history (device self) @ [Write (map word_of_int [0x20, 0x08])])"
    using assms(1) by simp
  have c: "uint (word_of_int (sensirion_common_generate_crc xs) :: byte)
           = sensirion_common_generate_crc xs" for xs
    by (rule uint_byte) (rule generate_crc_bounds)+
  have two: "[0..<2] = [0, Suc 0]"
    by (simp add: upt_rec)
  show ?thesis
    using assms(2)
    by (simp add: sgp_iaq_measure_def transaction_outcome [OF cmd ack] Let_def two
        group_ok_def group_word_def c)
qed

theorem measure_returns_reply_pair_witness:
  "sgp_iaq_measure
     \<lparr>device = \<lparr>history = [], acks = \<lambda>_. True,
                answers = \<lambda>_. [0x01, 0x23, 0xA0, 0x00, 0x10, 0xC2]\<rparr>,
      serial = Some [0, 0, 1]\<rparr>
   = (Inr (Some [0x0123, 0x0010]),
      \<lparr>device = \<lparr>history = [Write [0x20, 0x08], Sleep 50, Read 6], acks = \<lambda>_. True,
                 answers = \<lambda>_. [0x01, 0x23, 0xA0, 0x00, 0x10, 0xC2]\<rparr>,
       serial = Some [0, 0, 1]\<rparr>)"
  using measure_returns_reply_pair
    [where ah = 1 and al = "0x23" and bh = 0 and bl = "0x10"
      and self = "\<lparr>device = \<lparr>history = [], acks = \<lambda>_. True,
                              answers = \<lambda>_. [0x01, 0x23, 0xA0, 0x00, 0x10, 0xC2]\<rparr>,
                   serial = Some [0, 0, 1]\<rparr>"]
  by (simp add: crc_0123 crc_0010 after_def)

section \<open>Setting the baseline\<close>

lemma baseline_buffer_eq:
  "baseline_buffer co2eq tvoc =
     [drop_bit 8 tvoc, tvoc AND 0xFF,
      sensirion_common_generate_crc [drop_bit 8 tvoc, tvoc AND 0xFF],
      drop_bit 8 co2eq, co2eq AND 0xFF,
      sensirion_common_generate_crc [drop_bit 8 co2eq, co2eq AND 0xFF]]"
  by (simp add: baseline_buffer_def baseline_arr_def)

lemma baseline_command_bytes:
  assumes "0 \<le> co2eq" "co2eq < 65536" "0 \<le> tvoc" "tvoc < 65536"
  shows "list_all (\<lambda>x. 0 \<le> x \<and> x < 256) ([0x20, 0x1e] @ baseline_buffer co2eq tvoc)"
  using byte_parts [OF assms(1,2)] byte_parts [OF assms(3,4)]
  by (simp add: baseline_buffer_eq generate_crc_bounds)

lemma set_baseline_unfold:
  "sgp_set_iaq_baseline self co2eq tvoc =
     (if co2eq = 0 \<and> tvoc = 0 then (Inl Invalid_Baseline, self)
      else (case fst (sgp_i2c_read_words_from_cmd self
                        ([0x20, 0x1e] @ baseline_buffer co2eq tvoc) 10 0) of
              Inl e \<Rightarrow> Inl e
            | Inr _ \<Rightarrow> Inr (),
            snd (sgp_i2c_read_words_from_cmd self
                   ([0x20, 0x1e] @ baseline_buffer co2eq tvoc) 10 0)))"
  by (cases "sgp_i2c_read_words_from_cmd self ([0x20, 0x1e] @ baseline_buffer co2eq tvoc) 10 0")
    (auto simp add: sgp_set_iaq_baseline_def split: sum.splits)

text \<open>
  C4. \<open>setBaseline(co2eq, tvoc)\<close>, for 16-bit inputs not both zero, builds a
  payload of 6 bytes: for TVOC, then for CO2eq, the high byte, the low byte and the
  checksum of the two. On a bus that acknowledges the write it sends the opcode 0x20 0x1e
  followed by that payload, 8 bytes in all, sleeps 10 ms and reads no reply. The witness is
  \<open>setBaseline(0x8973, 0x0042)\<close>, whose payload is
  \<open>[0x00, 0x42, crc(0x00, 0x42), 0x89, 0x73, crc(0x89, 0x73)]\<close>.
\<close>

theorem set_baseline_command:
  assumes "0 \<le> co2eq" and "co2eq < 65536" and "0 \<le> tvoc" and "tvoc < 65536"
    and "\<not> (co2eq = 0 \<and> tvoc = 0)"
    and "acks (device self)
           (history (device self)
              @ [Write (map word_of_int ([0x20, 0x1e] @ baseline_buffer co2eq tvoc))])"
  shows "baseline_buffer co2eq tvoc =
           [drop_bit 8 tvoc, tvoc AND 0xFF,
            sensirion_common_generate_crc [drop_bit 8 tvoc, tvoc AND 0xFF],
            drop_bit 8 co2eq, co2eq AND 0xFF,
            sensirion_common_generate_crc [drop_bit 8 co2eq, co2eq AND 0xFF]]
       \<and> length (baseline_buffer co2eq tvoc) = 6
       \<and> sgp_set_iaq_baseline self co2eq tvoc =
           (Inr (),
            after self
              [Write (map word_of_int ([0x20, 0x1e] @ baseline_buffer co2eq tvoc)), Sleep 10])"
proof -
  note cmd = baseline_command_bytes [OF assms(1-4)]
  have "sgp_i2c_read_words_from_cmd self ([0x20, 0x1e] @ baseline_buffer co2eq tvoc) 10 0 =
          (Inr None,
           after self
             [Write (map word_of_int ([0x20, 0x1e] @ baseline_buffer co2eq tvoc)), Sleep 10])"
    using transaction_outcome [OF cmd assms(6), of 10 0] by simp
  then have "sgp_set_iaq_baseline self co2eq tvoc =
           (Inr (),
            after self
              [Write (map word_of_int ([0x20, 0x1e] @ baseline_buffer co2eq tvoc)), Sleep 10])"
    unfolding set_baseline_unfold using assms(5) by simp
  moreover have "length (baseline_buffer co2eq tvoc) = 6"
    by (simp add: baseline_buffer_eq)
  ultimately show ?thesis
    using baseline_buffer_eq by blast
qed

theorem set_baseline_command_witness:
  "baseline_buffer 0x8973 0x0042 =
     [0x00, 0x42, sensirion_common_generate_crc [0x00, 0x42],
      0x89, 0x73, sensirion_common_generate_crc [0x89, 0x73]]
   \<and> baseline_buffer 0x8973 0x0042 = [0x00, 0x42, 0xDE, 0x89, 0x73, 0xCA]
   \<and> sgp_set_iaq_baseline
       \<lparr>device = \<lparr>history = [], acks = \<lambda>_. True, answers = \<lambda>_. []\<rparr>, serial = Some [0, 0, 1]\<rparr>
       0x8973 0x0042
     = (Inr (),
        \<lparr>device = \<lparr>history = [Write [0x20, 0x1e, 0x00, 0x42, 0xDE, 0x89, 0x73, 0xCA], Sleep 10],
                   acks = \<lambda>_. True, answers = \<lambda>_. []\<rparr>,
         serial = Some [0, 0, 1]\<rparr>)"
  using set_baseline_command [where co2eq = "0x8973" and tvoc = "0x0042"
      and self = "\<lparr>device = \<lparr>history = [], acks = \<lambda>_. True, answers = \<lambda>_. []\<rparr>,
                   serial = Some [0, 0, 1]\<rparr>"]
  by (simp add: crc_0042 crc_8973 drop_bit_eq_div after_def)

text \<open>
  C4 speaks of a payload of 8 bytes: the payload that \<open>setBaseline(0x8973, 0x0042)\<close>
  builds does not have 8 bytes (it has 6, and the command with its opcode has 8).
\<close>

theorem baseline_payload_not_8_bytes: "length (baseline_buffer 0x8973 0x0042) \<noteq> 8"
  by (simp add: baseline_buffer_eq)

text \<open>
  C6. \<open>setBaseline(co2eq, tvoc)\<close> fails with the invalid-baseline error if and only if
  both inputs are zero, and then nothing is done on the bus; with any other pair of 16-bit
  values the command is written to the bus.
\<close>

theorem invalid_baseline_iff_both_zero:
  "(fst (sgp_set_iaq_baseline self co2eq tvoc) = Inl Invalid_Baseline) = (co2eq = 0 \<and> tvoc = 0)
   \<and> (co2eq = 0 \<and> tvoc = 0 \<longrightarrow> snd (sgp_set_iaq_baseline self co2eq tvoc) = self)
   \<and> (\<not> (co2eq = 0 \<and> tvoc = 0)
        \<and> 0 \<le> co2eq \<and> co2eq < 65536 \<and> 0 \<le> tvoc \<and> tvoc < 65536 \<longrightarrow>
       (\<exists>rest.
          history (device (snd (sgp_set_iaq_baseline self co2eq tvoc)))
          = history (device self)
            @ Write (map word_of_int ([0x20, 0x1e] @ baseline_buffer co2eq tvoc)) # rest))"
proof (intro conjI impI)
  let ?cmd = "[0x20, 0x1e] @ baseline_buffer co2eq tvoc"
  let ?tx = "sgp_i2c_read_words_from_cmd self ?cmd 10 0"
  show "(fst (sgp_set_iaq_baseline self co2eq tvoc) = Inl Invalid_Baseline)
      = (co2eq = 0 \<and> tvoc = 0)"
    using transaction_errors [of self ?cmd 10 0]
    unfolding set_baseline_unfold by (auto split: sum.splits)
  show "snd (sgp_set_iaq_baseline self co2eq tvoc) = self" if "co2eq = 0 \<and> tvoc = 0"
    using that by (simp add: set_baseline_unfold)
  show "\<exists>rest.
          history (device (snd (sgp_set_iaq_baseline self co2eq tvoc)))
          = history (device self)
            @ Write (map word_of_int ([0x20, 0x1e] @ baseline_buffer co2eq tvoc)) # rest"
    if h: "\<not> (co2eq = 0 \<and> tvoc = 0)
        \<and> 0 \<le> co2eq \<and> co2eq < 65536 \<and> 0 \<le> tvoc \<and> tvoc < 65536"
  proof -
    from h have cmd: "list_all (\<lambda>x. 0 \<le> x \<and> x < 256) ?cmd"
      by (intro baseline_command_bytes) simp_all
    have "\<exists>rest. history (device (snd ?tx))
            = history (device self) @ Write (map word_of_int ?cmd) # rest"
    proof (cases "acks (device self) (history (device self) @ [Write (map word_of_int ?cmd)])")
      case True
      show ?thesis
        using transaction_outcome [OF cmd True, of 10 0] by (simp add: after_def)
    next
      case False
      show ?thesis
        using transaction_nack [OF cmd False, of 10 0] by (simp add: after_def)
    qed
    then show ?thesis
      unfolding set_baseline_unfold using h by simp
  qed
qed

theorem invalid_baseline_iff_both_zero_witness:
  "fst (sgp_set_iaq_baseline
          \<lparr>device = \<lparr>history = [], acks = \<lambda>_. True, answers = \<lambda>_. []\<rparr>, serial = Some [0, 0, 1]\<rparr>
          0 0) = Inl Invalid_Baseline
   \<and> snd (sgp_set_iaq_baseline
          \<lparr>device = \<lparr>history = [], acks = \<lambda>_. True, answers = \<lambda>_. []\<rparr>, serial = Some [0, 0, 1]\<rparr>
          0 0)
       = \<lparr>device = \<lparr>history = [], acks = \<lambda>_. True, answers = \<lambda>_. []\<rparr>, serial = Some [0, 0, 1]\<rparr>
   \<and> fst (sgp_set_iaq_baseline
          \<lparr>device = \<lparr>history = [], acks = \<lambda>_. True, answers = \<lambda>_. []\<rparr>, serial = Some [0, 0, 1]\<rparr>
          0 1) \<noteq> Inl Invalid_Baseline
   \<and> (\<exists>rest.
        history (device (snd (sgp_set_iaq_baseline
          \<lparr>device = \<lparr>history = [], acks = \<lambda>_. True, answers = \<lambda>_. []\<rparr>, serial = Some [0, 0, 1]\<rparr>
          0 1)))
        = Write [0x20, 0x1e, 0x00, 0x01, 0xB0, 0x00, 0x00, 0x81] # rest)"
  using invalid_baseline_iff_both_zero [where co2eq = 0 and tvoc = 0
      and self = "\<lparr>device = \<lparr>history = [], acks = \<lambda>_. True, answers = \<lambda>_. []\<rparr>,
                   serial = Some [0, 0, 1]\<rparr>"]
    invalid_baseline_iff_both_zero [where co2eq = 0 and tvoc = 1
      and self = "\<lparr>device = \<lparr>history = [], acks = \<lambda>_. True, answers = \<lambda>_. []\<rparr>,
                   serial = Some [0, 0, 1]\<rparr>"]
  by (simp add: baseline_buffer_eq crc_0000 crc_0001)

section \<open>Construction\<close>

lemma iaq_init_acked:
  assumes "acks (device self) (history (device self) @ [Write [0x20, 0x03]])"
  shows "sgp_iaq_init self = (Inr (), after self [Write [0x20, 0x03], Sleep 10])"
proof -
  have cmd: "list_all (\<lambda>x. 0 \<le> x \<and> x < 256) [0x20, 0x03 :: int]"
    by simp
  have ack: "acks (device self) (history (device self) @ [Write (map word_of_int [0x20, 0x03])])"
    using assms by simp
  show ?thesis
    by (simp add: sgp_iaq_init_def transaction_outcome [OF cmd ack])
qed

text \<open>
  C5. Given that the serial read succeeded, that the feature-set read delivered the word
  \<open>w\<close>, and that the bus acknowledges the init-IAQ command, construction succeeds exactly
  when \<open>w\<close> is 0x0020. Whatever the bus does with the init-IAQ command: when \<open>w\<close> is
  0x0020 construction proceeds to that command and ends as it ends, and when \<open>w\<close> is any
  other value construction fails with the not-detected error, so that no object exists.
\<close>

theorem featureset_gate:
  assumes "sgp_i2c_read_words_from_cmd \<lparr>device = dev, serial = None\<rparr> [0x36, 0x82] 10 3
           = (Inr words, self1)"
    and "sgp_i2c_read_words_from_cmd (self1\<lparr>serial := words\<rparr>) [0x20, 0x2f] 10 1
         = (Inr (Some [w]), self3)"
  shows "(w = 0x0020 \<longrightarrow>
            init dev = (case sgp_iaq_init self3 of
                          (Inl e, _) \<Rightarrow> Inl e
                        | (Inr _, self4) \<Rightarrow> Inr self4))
       \<and> (w \<noteq> 0x0020 \<longrightarrow> init dev = Inl Not_Detected)
       \<and> (acks (device self3) (history (device self3) @ [Write [0x20, 0x03]]) \<longrightarrow>
            (w = 0x0020 \<longrightarrow> init dev = Inr (after self3 [Write [0x20, 0x03], Sleep 10]))
          \<and> ((\<exists>obj. init dev = Inr obj) = (w = 0x0020)))"
proof -
  have unfold: "init dev =
      (if w \<noteq> SGP30_FEATURESET then Inl Not_Detected
       else (case sgp_iaq_init self3 of
               (Inl e, _) \<Rightarrow> Inl e
             | (Inr _, self4) \<Rightarrow> Inr self4))"
    by (simp add: init_def assms)
  show ?thesis
    unfolding unfold by (auto simp add: SGP30_FEATURESET_def iaq_init_acked)
qed

theorem featureset_gate_witness:
  "init \<lparr>history = [], acks = \<lambda>_. True,
         answers = \<lambda>h. if length h = 3 then [0, 0, 0x81, 0, 0, 0x81, 0, 0, 0x81]
                         else [0x00, 0x20, 0x07]\<rparr>
   = Inr \<lparr>device =
            \<lparr>history = [Write [0x36, 0x82], Sleep 10, Read 9,
                        Write [0x20, 0x2f], Sleep 10, Read 3,
                        Write [0x20, 0x03], Sleep 10],
             acks = \<lambda>_. True,
             answers = \<lambda>h. if length h = 3 then [0, 0, 0x81, 0, 0, 0x81, 0, 0, 0x81]
                             else [0x00, 0x20, 0x07]\<rparr>,
          serial = Some [0, 0, 0]\<rparr>
   \<and> init \<lparr>history = [], acks = \<lambda>_. True,
         answers = \<lambda>h. if length h = 3 then [0, 0, 0x81, 0, 0, 0x81, 0, 0, 0x81]
                         else [0x00, 0x10, 0xC2]\<rparr>
   = Inl Not_Detected"
proof -
  let ?ser = "[0, 0, 0x81, 0, 0, 0x81, 0, 0, 0x81] :: byte list"
  let ?good = "\<lparr>history = [], acks = \<lambda>_. True,
         answers = \<lambda>h. if length h = 3 then ?ser else [0x00, 0x20, 0x07]\<rparr>"
  let ?bad = "\<lparr>history = [], acks = \<lambda>_. True,
         answers = \<lambda>h. if length h = 3 then ?ser else [0x00, 0x10, 0xC2]\<rparr>"
  have cmd1: "list_all (\<lambda>x. 0 \<le> x \<and> x < 256) [0x36, 0x82 :: int]"
    and cmd2: "list_all (\<lambda>x. 0 \<le> x \<and> x < 256) [0x20, 0x2f :: int]"
    by simp_all
  have ser: "list_all (group_ok ?ser) [0..<3]"
    by (simp add: upt_3 group_ok_def crc_0000)
  have ser_words: "map (group_word ?ser) [0..<3] = [0, 0, 0]"
    by (simp add: upt_3 group_word_def)
  have g1: "sgp_i2c_read_words_from_cmd \<lparr>device = ?good, serial = None\<rparr> [0x36, 0x82] 10 3
      = (Inr (Some [0, 0, 0]),
         \<lparr>device = ?good\<lparr>history := [Write [0x36, 0x82], Sleep 10, Read 9]\<rparr>, serial = None\<rparr>)"
    using ser ser_words
    by (simp add: transaction_outcome [OF cmd1] after_def)
  have g2: "sgp_i2c_read_words_from_cmd
        (\<lparr>device = ?good\<lparr>history := [Write [0x36, 0x82], Sleep 10, Read 9]\<rparr>, serial = None\<rparr>
           \<lparr>serial := Some [0, 0, 0]\<rparr>) [0x20, 0x2f] 10 1
      = (Inr (Some [0x0020]),
         \<lparr>device = ?good\<lparr>history := [Write [0x36, 0x82], Sleep 10, Read 9,
                                       Write [0x20, 0x2f], Sleep 10, Read 3]\<rparr>,
          serial = Some [0, 0, 0]\<rparr>)"
    by (simp add: transaction_outcome [OF cmd2] after_def group_ok_def group_word_def crc_0020)
  have b1: "sgp_i2c_read_words_from_cmd \<lparr>device = ?bad, serial = None\<rparr> [0x36, 0x82] 10 3
      = (Inr (Some [0, 0, 0]),
         \<lparr>device = ?bad\<lparr>history := [Write [0x36, 0x82], Sleep 10, Read 9]\<rparr>, serial = None\<rparr>)"
    using ser ser_words
    by (simp add: transaction_outcome [OF cmd1] after_def)
  have b2: "sgp_i2c_read_words_from_cmd
        (\<lparr>device = ?bad\<lparr>history := [Write [0x36, 0x82], Sleep 10, Read 9]\<rparr>, serial = None\<rparr>
           \<lparr>serial := Some [0, 0, 0]\<rparr>) [0x20, 0x2f] 10 1
      = (Inr (Some [0x0010]),
         \<lparr>device = ?bad\<lparr>history := [Write [0x36, 0x82], Sleep 10, Read 9,
                                       Write [0x20, 0x2f], Sleep 10, Read 3]\<rparr>,
          serial = Some [0, 0, 0]\<rparr>)"
    by (simp add: transaction_outcome [OF cmd2] after_def group_ok_def group_word_def crc_0010)
  from featureset_gate [OF g1 g2] featureset_gate [OF b1 b2] show ?thesis
    by (simp add: after_def iaq_init_acked)
qed

text \<open>
  C5 without the condition on the init-IAQ command does not hold: on a bus that answers
  the serial read, answers the feature-set read with the word 0x0020, and then does not
  acknowledge the init-IAQ command, the write raises \<open>OSError\<close> and construction fails.
\<close>

theorem featureset_0x0020_nack_on_init_fails:
  "fst (sgp_i2c_read_words_from_cmd
          \<lparr>device = \<lparr>history = [], acks = \<lambda>h. length h \<noteq> 7,
                     answers = \<lambda>h. if length h = 3 then [0, 0, 0x81, 0, 0, 0x81, 0, 0, 0x81]
                                     else [0x00, 0x20, 0x07]\<rparr>,
           serial = None\<rparr> [0x36, 0x82] 10 3)
     = Inr (Some [0, 0, 0])
   \<and> fst (sgp_i2c_read_words_from_cmd
          \<lparr>device = \<lparr>history = [Write [0x36, 0x82], Sleep 10, Read 9],
                     acks = \<lambda>h. length h \<noteq> 7,
                     answers = \<lambda>h. if length h = 3 then [0, 0, 0x81, 0, 0, 0x81, 0, 0, 0x81]
                                     else [0x00, 0x20, 0x07]\<rparr>,
           serial = Some [0, 0, 0]\<rparr> [0x20, 0x2f] 10 1)
     = Inr (Some [0x0020])
   \<and> init \<lparr>history = [], acks = \<lambda>h. length h \<noteq> 7,
           answers = \<lambda>h. if length h = 3 then [0, 0, 0x81, 0, 0, 0x81, 0, 0, 0x81]
                           else [0x00, 0x20, 0x07]\<rparr>
     = Inl OS_Error"
proof -
  let ?ser = "[0, 0, 0x81, 0, 0, 0x81, 0, 0, 0x81] :: byte list"
  let ?dev = "\<lparr>history = [], acks = \<lambda>h. length h \<noteq> 7,
         answers = \<lambda>h. if length h = 3 then ?ser else [0x00, 0x20, 0x07]\<rparr>"
  let ?self3 = "\<lparr>device = ?dev\<lparr>history := [Write [0x36, 0x82], Sleep 10, Read 9,
                                       Write [0x20, 0x2f], Sleep 10, Read 3]\<rparr>,
          serial = Some [0, 0, 0]\<rparr>"
  have cmd1: "list_all (\<lambda>x. 0 \<le> x \<and> x < 256) [0x36, 0x82 :: int]"
    and cmd2: "list_all (\<lambda>x. 0 \<le> x \<and> x < 256) [0x20, 0x2f :: int]"
    and cmd3: "list_all (\<lambda>x. 0 \<le> x \<and> x < 256) [0x20, 0x03 :: int]"
    by simp_all
  have ser: "list_all (group_ok ?ser) [0..<3]"
    by (simp add: upt_3 group_ok_def crc_0000)
  have ser_words: "map (group_word ?ser) [0..<3] = [0, 0, 0]"
    by (simp add: upt_3 group_word_def)
  have t1: "sgp_i2c_read_words_from_cmd \<lparr>device = ?dev, serial = None\<rparr> [0x36, 0x82] 10 3
      = (Inr (Some [0, 0, 0]),
         \<lparr>device = ?dev\<lparr>history := [Write [0x36, 0x82], Sleep 10, Read 9]\<rparr>, serial = None\<rparr>)"
    using ser ser_words
    by (simp add: transaction_outcome [OF cmd1] after_def)
  have t2: "sgp_i2c_read_words_from_cmd
        (\<lparr>device = ?dev\<lparr>history := [Write [0x36, 0x82], Sleep 10, Read 9]\<rparr>, serial = None\<rparr>
           \<lparr>serial := Some [0, 0, 0]\<rparr>) [0x20, 0x2f] 10 1
      = (Inr (Some [0x0020]), ?self3)"
    by (simp add: transaction_outcome [OF cmd2] after_def group_ok_def group_word_def crc_0020)
  have t3: "fst (sgp_iaq_init ?self3) = Inl OS_Error"
    by (simp add: sgp_iaq_init_def transaction_nack [OF cmd3])
  have "init ?dev = Inl OS_Error"
    using t1 t2 t3 by (cases "sgp_iaq_init ?self3") (simp add: init_def SGP30_FEATURESET_def)
  then show ?thesis
    using t1 t2 by simp
qed

text \<open>
  C9. Construction checks the checksums of the serial-number reply, although it does not
  check the serial number: when the bus acknowledges the get-serial command and delivers
  9 bytes of which some group \<open>i < 3\<close> has a checksum byte that differs from the checksum
  of its two data bytes, construction fails with the checksum error and no object exists.
\<close>

theorem serial_crc_checked:
  assumes "acks dev (history dev @ [Write [0x36, 0x82]])"
    and "answers dev (history dev @ [Write [0x36, 0x82], Sleep 10, Read 9]) = buf"
    and "length buf = 9"
    and "i < 3"
    and "sensirion_common_generate_crc [uint (buf ! (3 * i)), uint (buf ! (3 * i + 1))]
         \<noteq> uint (buf ! (3 * i + 2))"
  shows "init dev = Inl CRC_Error"
proof -
  let ?self = "\<lparr>device = dev, serial = None\<rparr>"
  have cmd: "list_all (\<lambda>x. 0 \<le> x \<and> x < 256) [0x36, 0x82 :: int]"
    by simp
  have ack: "acks (device ?self) (history (device ?self) @ [Write (map word_of_int [0x36, 0x82])])"
    using assms(1) by simp
  have "\<not> group_ok buf i"
    using assms(5) by (simp add: group_ok_def)
  moreover have "i \<in> set [0..<3]"
    using assms(4) by simp
  ultimately have bad: "\<not> list_all (group_ok buf) [0..<3]"
    unfolding list_all_iff by blast
  have "fst (sgp_i2c_read_words_from_cmd ?self [0x36, 0x82] 10 3) = Inl CRC_Error"
    using transaction_outcome [OF cmd ack, of 10 3] assms(2,3) bad by (simp add: Let_def)
  then show ?thesis
    by (cases "sgp_i2c_read_words_from_cmd ?self [0x36, 0x82] 10 3") (simp add: init_def)
qed

theorem serial_crc_checked_witness:
  "init \<lparr>history = [], acks = \<lambda>_. True,
         answers = \<lambda>_. [0x00, 0x00, 0x81, 0x00, 0x00, 0x80, 0x00, 0x00, 0x81]\<rparr>
   = Inl CRC_Error"
  using serial_crc_checked [where i = 1
      and buf = "[0x00, 0x00, 0x81, 0x00, 0x00, 0x80, 0x00, 0x00, 0x81]"
      and dev = "\<lparr>history = [], acks = \<lambda>_. True,
         answers = \<lambda>_. [0x00, 0x00, 0x81, 0x00, 0x00, 0x80, 0x00, 0x00, 0x81]\<rparr>"]
  by (simp add: crc_0000)

end
